theory Spec2Isabelle
  imports Complex_Main "HOL-Library.Sublist" "HOL-Library.AList"
begin

section \<open>Weighted fusion of three signal estimates (fuse.py)\<close>

text \<open>
  The script indexes three directory trees by a normalised recording id, intersects the
  three indexes, and for every common id loads the three tabular files, coerces their last
  columns to numbers, trims them to the shortest length, combines them with fixed weights,
  and writes a two-column table and a plot.

  Samples are \<open>float64\<close> in the source; they are modelled as \<open>real\<close>, so rounding
  and the infinities are outside the model. Everything the script obtains from the
  operating system or from a library (directory listing, file loading, text-to-number
  parsing, writing, plotting) is a field of an environment record, and every theorem
  holds for all environments.
\<close>

subsection \<open>Strings\<close>

text \<open>
  \<open>str.replace(old, new)\<close>: the occurrences of \<open>old\<close> are found from left to right
  without overlap, and each is replaced. For an empty \<open>old\<close>, \<open>new\<close> is put before
  every character and at the end.
\<close>

function str_replace :: "string \<Rightarrow> string \<Rightarrow> string \<Rightarrow> string" where
  "str_replace old new [] = (if old = [] then new else [])"
| "str_replace old new (c # cs) =
     (if old = [] then new @ c # str_replace old new cs
      else if prefix old (c # cs)
        then new @ str_replace old new (drop (length old) (c # cs))
        else c # str_replace old new cs)"
  by pat_completeness auto
termination
  by (relation "measure (\<lambda>(old, new, s). length s)") auto

text \<open>\<open>str.rfind(c)\<close> for a single character: the index of its last occurrence, or \<open>-1\<close>.\<close>

fun rfind_from :: "char \<Rightarrow> string \<Rightarrow> nat \<Rightarrow> int \<Rightarrow> int" where
  "rfind_from c [] i found = found"
| "rfind_from c (x # xs) i found = rfind_from c xs (Suc i) (if x = c then int i else found)"

definition rfind :: "char \<Rightarrow> string \<Rightarrow> int" where
  "rfind c s = rfind_from c s 0 (- 1)"

text \<open>
  \<open>os.path.splitext\<close>: the extension starts at the last dot, provided that dot comes
  after the last separator and some character between the separator and the dot is not a
  dot itself (leading dots do not start an extension). The names \<open>os.walk\<close> yields
  contain no separator.
\<close>

definition splitext :: "string \<Rightarrow> string \<times> string" where
  "splitext p =
     (let sepIndex = rfind (CHR ''/'') p;
          dotIndex = rfind (CHR ''.'') p
      in if dotIndex > sepIndex \<and>
            list_ex (\<lambda>ch. ch \<noteq> CHR ''.'')
              (take (nat (dotIndex - (sepIndex + 1))) (drop (nat (sepIndex + 1)) p))
         then (take (nat dotIndex) p, drop (nat dotIndex) p)
         else (p, []))"

definition endswith :: "string \<Rightarrow> string \<Rightarrow> bool" where
  "endswith s suf = suffix suf s"

text \<open>The \<open>in\<close> operator on strings: \<open>sub in s\<close>.\<close>

definition str_in :: "string \<Rightarrow> string \<Rightarrow> bool" where
  "str_in sub s = sublist sub s"

subsection \<open>Identifier normalisation (\<open>map_files\<close>, lines 43-44)\<close>

definition clean_id :: "string \<Rightarrow> string" where
  "clean_id file =
     (let vid_id = fst (splitext file)
      in str_replace ''_clean'' ''''
           (str_replace ''_trace'' '''' (str_replace ''_filtered'' '''' vid_id)))"

subsection \<open>Data\<close>

text \<open>
  A path is the list of its components, so \<open>os.path.join(root, name)\<close> appends one
  component. A table cell as the loader delivers it is a number, a missing value, or text.
  A loaded table is the list of its columns in file order.
\<close>

type_synonym path = "string list"

datatype cell = Number real | Missing | Text string

type_synonym dataframe = "cell list list"

datatype exn = Exception string

record figure =
  plot_x :: "cell list"
  plot_y :: "real list"
  mean_line :: real
  title_id :: string

datatype output_file = Csv (Time_Sec: "cell list") (Weighted_Value: "real list") | Png figure

text \<open>
  The messages the script prints, one constructor per message (the two lines printed at
  lines 129-130 and the four of lines 145-148 are one message each).
\<close>

datatype event =
    Starting
  | Scanning path
  | FolderNotFound
  | FoundFiles nat
  | ErrorProcessing string exn
  | NoMatchingIds
  | FoundMatching nat
  | Fusing nat nat string
  | Done
  | Failed
  | Summary nat

record world =
  files :: "path \<rightharpoonup> output_file"
  stdout :: "event list"

text \<open>
  What the operating system and the libraries answer. \<open>walk\<close> gives the
  \<open>(root, files)\<close> pairs of \<open>os.walk\<close> in its order; \<open>parse_num\<close> is the number
  parser behind \<open>pd.to_numeric\<close> (\<open>None\<close> where the text is no number);
  \<open>to_csv\<close>, \<open>savefig\<close> and \<open>makedirs\<close> say whether the call raises;
  \<open>str_hash\<close> fixes the order in which a set of strings is iterated.
\<close>

record env =
  path_exists :: "path \<Rightarrow> bool"
  walk :: "path \<Rightarrow> (path \<times> string list) list"
  read_csv :: "path \<Rightarrow> exn + dataframe"
  parse_num :: "string \<Rightarrow> real option"
  to_csv :: "path \<Rightarrow> output_file \<Rightarrow> exn option"
  savefig :: "path \<Rightarrow> figure \<Rightarrow> exn option"
  makedirs :: "path \<Rightarrow> exn option"
  str_hash :: "string \<Rightarrow> nat"

definition emit :: "event \<Rightarrow> world \<Rightarrow> world" where
  "emit e w = w\<lparr>stdout := stdout w @ [e]\<rparr>"

subsection \<open>Configuration (lines 10-20)\<close>

definition PATH_POS :: path where
  "PATH_POS = [''D:'', ''new2'', ''venv'', ''rPPG-Toolbox'', ''new'', ''final_pos_results-'']"

definition PATH_PHYSNET :: path where
  "PATH_PHYSNET =
     [''D:'', ''new2'', ''venv'', ''rPPG-Toolbox'', ''new'', ''final_physnet_graphs_full-'']"

definition PATH_EFFPHYS :: path where
  "PATH_EFFPHYS =
     [''D:'', ''new2'', ''venv'', ''rPPG-Toolbox'', ''new'', ''final_efficientphys_graphs_full-'']"

definition OUTPUT_FOLDER :: path where
  "OUTPUT_FOLDER = [''.'', ''FINAL_WEIGHTED_RESULTS'']"

definition W_EFFPHYS :: real where "W_EFFPHYS = 0.60"
definition W_POS :: real where "W_POS = 0.20"
definition W_PHYSNET :: real where "W_PHYSNET = 0.20"

subsection \<open>File index (\<open>map_files\<close>, lines 25-51)\<close>

text \<open>
  The dictionary is an association list: \<open>AList.update\<close> overwrites the value of a key
  that is present and appends a new key, as assignment to a \<open>dict\<close> entry does.
\<close>

type_synonym file_map = "(string \<times> path) list"

definition index_file :: "path \<Rightarrow> string \<Rightarrow> file_map \<times> nat \<Rightarrow> file_map \<times> nat" where
  "index_file rootdir file acc =
     (if endswith file ''.csv'' \<and> \<not> str_in ''ensemble'' file
      then (AList.update (clean_id file) (rootdir @ [file]) (fst acc), snd acc + 1)
      else acc)"

definition map_files :: "env \<Rightarrow> path \<Rightarrow> world \<Rightarrow> file_map \<times> world" where
  "map_files env root_folder w =
     (let w1 = emit (Scanning root_folder) w
      in if \<not> path_exists env root_folder then ([], emit FolderNotFound w1)
         else (let (file_map, count) =
                     fold (\<lambda>(rootdir, filenames) acc. fold (index_file rootdir) filenames acc)
                       (walk env root_folder) ([], 0)
               in (file_map, emit (FoundFiles count) w1)))"

subsection \<open>Fusion (\<open>process_fusion\<close>, lines 56-111)\<close>

text \<open>\<open>df.iloc[:, j]\<close>: a negative \<open>j\<close> counts from the last column.\<close>

definition iloc_col :: "dataframe \<Rightarrow> int \<Rightarrow> exn + cell list" where
  "iloc_col df j =
     (let n = int (length df); k = (if j < 0 then n + j else j)
      in if 0 \<le> k \<and> k < n then Inr (df ! nat k)
         else Inl (Exception ''single positional indexer is out-of-bounds''))"

text \<open>\<open>pd.to_numeric(..., errors='coerce')\<close> on one cell; \<open>None\<close> stands for NaN.\<close>

definition to_numeric_coerce :: "env \<Rightarrow> cell \<Rightarrow> real option" where
  "to_numeric_coerce env c =
     (case c of Number x \<Rightarrow> Some x | Missing \<Rightarrow> None | Text s \<Rightarrow> parse_num env s)"

definition fillna :: "real \<Rightarrow> real option \<Rightarrow> real" where
  "fillna v x = (case x of None \<Rightarrow> v | Some y \<Rightarrow> y)"

text \<open>Lines 65-67: the last column, coerced, with NaN replaced by \<open>0\<close>.\<close>

definition signal_of :: "env \<Rightarrow> dataframe \<Rightarrow> exn + real list" where
  "signal_of env df =
     (case iloc_col df (- 1) of
        Inl e \<Rightarrow> Inl e
      | Inr col \<Rightarrow> Inr (map (\<lambda>c. fillna 0 (to_numeric_coerce env c)) col))"

text \<open>Elementwise array arithmetic; at its only use the operands have one length.\<close>

definition np_scale :: "real list \<Rightarrow> real \<Rightarrow> real list" where
  "np_scale xs k = map (\<lambda>x. x * k) xs"

definition np_add :: "real list \<Rightarrow> real list \<Rightarrow> real list" where
  "np_add xs ys = map2 (+) xs ys"

definition np_mean :: "real list \<Rightarrow> real" where
  "np_mean xs = sum_list xs / real (length xs)"

text \<open>Line 82.\<close>

definition weighted_signal :: "real list \<Rightarrow> real list \<Rightarrow> real list \<Rightarrow> real list" where
  "weighted_signal s_pos s_phy s_eff =
     np_add (np_add (np_scale s_pos W_POS) (np_scale s_phy W_PHYSNET)) (np_scale s_eff W_EFFPHYS)"

text \<open>
  Lines 59-82, where nothing is written yet: \<open>Inl\<close> is an exception, \<open>Inr None\<close> the
  early \<open>return False\<close> of line 71, \<open>Inr (Some (time_axis, weighted_signal))\<close> the
  values that reach the output step.
\<close>

definition compute_fusion ::
  "env \<Rightarrow> path \<Rightarrow> path \<Rightarrow> path \<Rightarrow> exn + (cell list \<times> real list) option" where
  "compute_fusion env p_pos p_phy p_eff =
     (case read_csv env p_pos of Inl e \<Rightarrow> Inl e | Inr df_pos \<Rightarrow>
     (case read_csv env p_phy of Inl e \<Rightarrow> Inl e | Inr df_phy \<Rightarrow>
     (case read_csv env p_eff of Inl e \<Rightarrow> Inl e | Inr df_eff \<Rightarrow>
     (case signal_of env df_pos of Inl e \<Rightarrow> Inl e | Inr s_pos \<Rightarrow>
     (case signal_of env df_phy of Inl e \<Rightarrow> Inl e | Inr s_phy \<Rightarrow>
     (case signal_of env df_eff of Inl e \<Rightarrow> Inl e | Inr s_eff \<Rightarrow>
        (let min_len = min (length s_pos) (min (length s_phy) (length s_eff))
         in if min_len < 30 then Inr None
            else (case iloc_col df_pos 0 of
                    Inl e \<Rightarrow> Inl e
                  | Inr col0 \<Rightarrow>
                      Inr (Some (take min_len col0,
                        weighted_signal (take min_len s_pos) (take min_len s_phy)
                          (take min_len s_eff)))))))))))"

text \<open>
  \<open>pd.DataFrame({...})\<close> of two arrays raises when their lengths differ.
\<close>

definition DataFrame :: "cell list \<Rightarrow> real list \<Rightarrow> exn + output_file" where
  "DataFrame time_axis values =
     (if length time_axis \<noteq> length values
      then Inl (Exception ''All arrays must be of the same length'')
      else Inr (Csv time_axis values))"

definition out_csv :: "string \<Rightarrow> path" where
  "out_csv vid_id = OUTPUT_FOLDER @ [vid_id @ ''_weighted.csv'']"

definition out_png :: "string \<Rightarrow> path" where
  "out_png vid_id = OUTPUT_FOLDER @ [vid_id @ ''_graph.png'']"

text \<open>
  Lines 85-107: the table is written first, the plot is rendered and written second. A
  call that raises leaves the files as they were before it.
\<close>

definition save_outputs ::
  "env \<Rightarrow> string \<Rightarrow> cell list \<Rightarrow> real list \<Rightarrow> world \<Rightarrow> (exn + bool) \<times> world" where
  "save_outputs env vid_id time_axis weighted w =
     (case DataFrame time_axis weighted of
        Inl e \<Rightarrow> (Inl e, w)
      | Inr tbl \<Rightarrow>
         (case to_csv env (out_csv vid_id) tbl of
            Some e \<Rightarrow> (Inl e, w)
          | None \<Rightarrow>
             (let w1 = w\<lparr>files := (files w)(out_csv vid_id \<mapsto> tbl)\<rparr>;
                  avg_val = np_mean weighted;
                  fig = \<lparr>plot_x = time_axis, plot_y = weighted,
                         mean_line = avg_val, title_id = vid_id\<rparr>
              in case savefig env (out_png vid_id) fig of
                   Some e \<Rightarrow> (Inl e, w1)
                 | None \<Rightarrow> (Inr True, w1\<lparr>files := (files w1)(out_png vid_id \<mapsto> Png fig)\<rparr>))))"

text \<open>The body of the \<open>try\<close> block.\<close>

definition process_fusion_body ::
  "env \<Rightarrow> string \<Rightarrow> path \<Rightarrow> path \<Rightarrow> path \<Rightarrow> world \<Rightarrow> (exn + bool) \<times> world" where
  "process_fusion_body env vid_id p_pos p_phy p_eff w =
     (case compute_fusion env p_pos p_phy p_eff of
        Inl e \<Rightarrow> (Inl e, w)
      | Inr None \<Rightarrow> (Inr False, w)
      | Inr (Some (time_axis, weighted)) \<Rightarrow> save_outputs env vid_id time_axis weighted w)"

text \<open>\<open>try ... except Exception as e\<close>: the exception is printed and \<open>False\<close> returned.\<close>

definition process_fusion ::
  "env \<Rightarrow> string \<Rightarrow> path \<Rightarrow> path \<Rightarrow> path \<Rightarrow> world \<Rightarrow> bool \<times> world" where
  "process_fusion env vid_id p_pos p_phy p_eff w =
     (case process_fusion_body env vid_id p_pos p_phy p_eff w of
        (Inl e, w') \<Rightarrow> (False, emit (ErrorProcessing vid_id e) w')
      | (Inr ok, w') \<Rightarrow> (ok, w'))"

subsection \<open>Batch loop (\<open>main\<close>, lines 116-148)\<close>

text \<open>
  Line 126: the ids that are keys of all three indexes. A Python set holds an element
  once and is iterated in an order fixed by the hashes of its elements.
\<close>

definition common_ids :: "env \<Rightarrow> file_map \<Rightarrow> file_map \<Rightarrow> file_map \<Rightarrow> string list" where
  "common_ids env map_pos map_phy map_eff =
     sort_key (str_hash env)
       (remdups [k \<leftarrow> map fst map_pos. k \<in> set (map fst map_phy) \<and> k \<in> set (map fst map_eff)])"

text \<open>\<open>d[k]\<close> raises \<open>KeyError\<close> where the key is missing.\<close>

definition getitem :: "file_map \<Rightarrow> string \<Rightarrow> exn + path" where
  "getitem d k = (case map_of d k of None \<Rightarrow> Inl (Exception ''KeyError'') | Some v \<Rightarrow> Inr v)"

text \<open>Lines 135-143, over the enumerated ids; \<open>n\<close> is \<open>len(common_ids)\<close>.\<close>

fun main_loop ::
  "env \<Rightarrow> file_map \<Rightarrow> file_map \<Rightarrow> file_map \<Rightarrow> nat \<Rightarrow> (nat \<times> string) list \<Rightarrow> nat \<Rightarrow> world
     \<Rightarrow> (exn + nat) \<times> world" where
  "main_loop env map_pos map_phy map_eff n [] count w = (Inr count, w)"
| "main_loop env map_pos map_phy map_eff n ((i, vid_id) # rest) count w =
     (let w1 = emit (Fusing (i + 1) n vid_id) w
      in (case getitem map_pos vid_id of Inl e \<Rightarrow> (Inl e, w1) | Inr p_pos \<Rightarrow>
         (case getitem map_phy vid_id of Inl e \<Rightarrow> (Inl e, w1) | Inr p_phy \<Rightarrow>
         (case getitem map_eff vid_id of Inl e \<Rightarrow> (Inl e, w1) | Inr p_eff \<Rightarrow>
           (case process_fusion env vid_id p_pos p_phy p_eff w1 of
              (True, w2) \<Rightarrow>
                main_loop env map_pos map_phy map_eff n rest (count + 1) (emit Done w2)
            | (False, w2) \<Rightarrow>
                main_loop env map_pos map_phy map_eff n rest count (emit Failed w2))))))"

definition main :: "env \<Rightarrow> world \<Rightarrow> exn option \<times> world" where
  "main env w =
     (let w0 = emit Starting w
      in case makedirs env OUTPUT_FOLDER of
           Some e \<Rightarrow> (Some e, w0)
         | None \<Rightarrow>
            (let (map_pos, w1) = map_files env PATH_POS w0;
                 (map_phy, w2) = map_files env PATH_PHYSNET w1;
                 (map_eff, w3) = map_files env PATH_EFFPHYS w2;
                 ids = common_ids env map_pos map_phy map_eff
             in if ids = [] then (None, emit NoMatchingIds w3)
                else (let w4 = emit (FoundMatching (length ids)) w3
                      in case main_loop env map_pos map_phy map_eff (length ids)
                                (enumerate 0 ids) 0 w4 of
                           (Inl e, w5) \<Rightarrow> (Some e, w5)
                         | (Inr count, w5) \<Rightarrow> (None, emit (Summary count) w5))))"

subsection \<open>Reading the log\<close>

text \<open>
  Line 137 prints the id right before line 139 hands it to \<open>process_fusion\<close>, and
  nothing else prints that message, so the ids of these messages, in order, are the ids
  that were processed.
\<close>

fun fused_id :: "event \<Rightarrow> string option" where
  "fused_id (Fusing i n vid_id) = Some vid_id"
| "fused_id _ = None"

definition processed_ids :: "event list \<Rightarrow> string list" where
  "processed_ids evs = List.map_filter fused_id evs"

subsection \<open>A sample run\<close>

text \<open>
  Three tables of 30, 31 and 32 rows, each with a time column and a signal column; the
  signal columns hold a text cell, a missing cell and another text cell at rows 0, 1 and 2.
  A fourth table has 29 rows only. The sample environment finds one recording
  \<open>foo\<close> in all three directories.
\<close>

definition pos_table :: dataframe where
  "pos_table =
     [map (\<lambda>k. Number (real k)) [0..<30], Text ''n/a'' # replicate 29 (Number 10)]"

definition physnet_table :: dataframe where
  "physnet_table =
     [map (\<lambda>k. Number (real k)) [0..<31], Number 20 # Missing # replicate 29 (Number 20)]"

definition effphys_table :: dataframe where
  "effphys_table =
     [map (\<lambda>k. Number (real k)) [0..<32],
      Number 30 # Number 30 # Text ''abc'' # replicate 29 (Number 30)]"

definition example_env :: env where
  "example_env =
     \<lparr>path_exists = (\<lambda>p. True),
      walk = (\<lambda>p. if p = PATH_POS then [(p, [''foo_filtered.csv'', ''notes.txt''])]
                  else if p = PATH_PHYSNET then [(p, [''foo_trace.csv'', ''bar_trace.csv''])]
                  else [(p, [''foo_clean.csv'', ''foo_ensemble.csv''])]),
      read_csv = (\<lambda>p. if p = PATH_POS @ [''foo_filtered.csv''] then Inr pos_table
                      else if p = PATH_PHYSNET @ [''foo_trace.csv''] then Inr physnet_table
                      else if p = PATH_EFFPHYS @ [''foo_clean.csv''] then Inr effphys_table
                      else Inl (Exception ''No such file or directory'')),
      parse_num = (\<lambda>s. None),
      to_csv = (\<lambda>p tbl. None),
      savefig = (\<lambda>p fig. None),
      makedirs = (\<lambda>p. None),
      str_hash = length\<rparr>"

definition foo_pos :: path where "foo_pos = PATH_POS @ [''foo_filtered.csv'']"
definition foo_phy :: path where "foo_phy = PATH_PHYSNET @ [''foo_trace.csv'']"
definition foo_eff :: path where "foo_eff = PATH_EFFPHYS @ [''foo_clean.csv'']"

definition empty_world :: world where
  "empty_world = \<lparr>files = Map.empty, stdout = []\<rparr>"

definition short_table :: dataframe where
  "short_table = [map (\<lambda>k. Number (real k)) [0..<29], replicate 29 (Number 10)]"

section \<open>Properties\<close>

subsection \<open>Identifier normalisation\<close>

lemma rfind_from_append:
  "rfind_from c (xs @ ys) i f = rfind_from c ys (i + length xs) (rfind_from c xs i f)"
  by (induction xs arbitrary: i f) auto

lemma rfind_from_absent: "c \<notin> set xs \<Longrightarrow> rfind_from c xs i f = f"
  by (induction xs arbitrary: i f) auto

lemma rfind_from_less:
  "f < int n \<Longrightarrow> i + length xs \<le> n \<Longrightarrow> rfind_from c xs i f < int n"
  by (induction xs arbitrary: i f) auto

lemma rfind_from_ge: "- 1 \<le> f \<Longrightarrow> - 1 \<le> rfind_from c xs i f"
  by (induction xs arbitrary: i f) auto

lemma rfind_less: "rfind c s < int (length s)"
proof (cases s)
  case Nil
  then show ?thesis by (simp add: rfind_def)
next
  case (Cons a list)
  then show ?thesis
    using rfind_from_less [of "- 1" "length s" 0 s c] by (simp add: rfind_def)
qed

lemma rfind_ge: "- 1 \<le> rfind c s"
  by (simp add: rfind_def rfind_from_ge)

text \<open>
  A name \<open>s @ t @ ''.csv''\<close> whose part \<open>t\<close> is not empty, does not start with a dot
  and holds neither a dot nor a separator is split before \<open>.csv\<close>.
\<close>

lemma splitext_csv:
  assumes "t \<noteq> []" "hd t \<noteq> CHR ''.''" "CHR ''.'' \<notin> set t" "CHR ''/'' \<notin> set t"
  shows "splitext (s @ t @ ''.csv'') = (s @ t, ''.csv'')"
proof -
  let ?p = "s @ t @ ''.csv''"
  have dot: "rfind (CHR ''.'') ?p = int (length s + length t)"
    using assms(3) by (simp add: rfind_def rfind_from_append rfind_from_absent)
  have sep: "rfind (CHR ''/'') ?p = rfind (CHR ''/'') s"
    using assms(4) by (simp add: rfind_def rfind_from_append rfind_from_absent)
  define m where "m = nat (rfind (CHR ''/'') s + 1)"
  have m: "m \<le> length s"
    using rfind_less [of "CHR ''/''" s] by (simp add: m_def)
  have lt: "rfind (CHR ''/'') s < int (length s + length t)"
    using rfind_less [of "CHR ''/''" s] by simp
  have n: "nat (int (length s + length t) - (rfind (CHR ''/'') s + 1)) = (length s - m) + length t"
    using rfind_less [of "CHR ''/''" s] rfind_ge [of "CHR ''/''" s] by (simp add: m_def)
  obtain a u where t: "t = a # u"
    using assms(1) by (cases t) auto
  have "hd t \<in> set (take ((length s - m) + length t) (drop m ?p))"
    using m by (simp add: t)
  then have ex: "list_ex (\<lambda>ch. ch \<noteq> CHR ''.'')
       (take (nat (int (length s + length t) - (rfind (CHR ''/'') s + 1)))
         (drop (nat (rfind (CHR ''/'') s + 1)) ?p))"
    unfolding n using assms(2) unfolding list_ex_iff m_def by blast
  show ?thesis
    unfolding splitext_def Let_def dot sep using lt ex by simp
qed

text \<open>
  An occurrence of \<open>old\<close> that starts inside \<open>u\<close> cannot reach into \<open>t\<close> when the
  first character of \<open>t\<close> occurs in \<open>old\<close> at its first position only.
\<close>

lemma prefix_boundary:
  assumes "t \<noteq> []" "hd t \<notin> set (tl old)" "u \<noteq> []"
  shows "prefix old (u @ t) \<longleftrightarrow> prefix old u"
proof
  assume "prefix old (u @ t)"
  then consider "prefix old u" | us where "old = u @ us" "prefix us t"
    by (auto simp: prefix_append)
  then show "prefix old u"
  proof cases
    case 1
    then show ?thesis .
  next
    case 2
    show ?thesis
    proof (cases us)
      case Nil
      then show ?thesis using 2 by simp
    next
      case (Cons a us')
      then have "hd t = a"
        using 2(2) assms(1) by (cases t) auto
      moreover have "a \<in> set (tl old)"
        using 2(1) Cons assms(3) by (cases u) auto
      ultimately show ?thesis
        using assms(2) by simp
    qed
  qed
next
  assume "prefix old u"
  then show "prefix old (u @ t)" by (rule prefix_prefix)
qed

lemma str_replace_append:
  assumes "old \<noteq> []" "t \<noteq> []" "hd t \<notin> set (tl old)"
  shows "str_replace old new (s @ t) = str_replace old new s @ str_replace old new t"
  using assms
proof (induction old new s rule: str_replace.induct)
  case (1 old new)
  then show ?case by simp
next
  case (2 old new c cs)
  have b: "prefix old ((c # cs) @ t) \<longleftrightarrow> prefix old (c # cs)"
    using prefix_boundary [OF 2(5) 2(6), of "c # cs"] by simp
  show ?case
  proof (cases "prefix old (c # cs)")
    case True
    then have len: "length old \<le> length (c # cs)"
      by (rule prefix_length_le)
    have d: "drop (length old) ((c # cs) @ t) = drop (length old) (c # cs) @ t"
      unfolding drop_append using len by simp
    show ?thesis
      using True 2 b d by simp
  next
    case False
    then show ?thesis
      using 2 b by simp
  qed
qed

text \<open>Each of the three suffix tokens is removed, whatever the stem before it.\<close>

lemma clean_id_variant:
  assumes "tok \<in> {''_filtered'', ''_trace'', ''_clean''}"
  shows "clean_id (s @ tok @ ''.csv'') =
     str_replace ''_clean'' [] (str_replace ''_trace'' [] (str_replace ''_filtered'' [] s))"
proof -
  have sp: "splitext (s @ tok @ ''.csv'') = (s @ tok, ''.csv'')"
    using assms by (intro splitext_csv) auto
  show ?thesis
    using assms unfolding clean_id_def sp Let_def fst_conv
    by (auto simp: str_replace_append)
qed

text \<open>
  C5. The file names \<open>foo_filtered.csv\<close>, \<open>foo_trace.csv\<close> and \<open>foo_clean.csv\<close>
  are all normalised to the id \<open>foo\<close>; and for every stem, whatever it is, the three
  suffix variants of a name are normalised to one and the same id, so that a recording
  is matched across the three directories.
\<close>

theorem clean_id_collapses_suffix_variants:
  "clean_id ''foo_filtered.csv'' = ''foo'' \<and>
   clean_id ''foo_trace.csv'' = ''foo'' \<and>
   clean_id ''foo_clean.csv'' = ''foo'' \<and>
   (\<forall>s. clean_id (s @ ''_trace.csv'') = clean_id (s @ ''_filtered.csv'') \<and>
        clean_id (s @ ''_clean.csv'') = clean_id (s @ ''_filtered.csv''))"
proof -
  have foo: "str_replace ''_clean'' [] (str_replace ''_trace'' []
               (str_replace ''_filtered'' [] ''foo'')) = ''foo''"
    by simp
  have f: "clean_id (''foo'' @ ''_filtered'' @ ''.csv'') = ''foo''"
    using clean_id_variant [of "''_filtered''" "''foo''"] by (simp only: foo insertI1)
  have t: "clean_id (''foo'' @ ''_trace'' @ ''.csv'') = ''foo''"
    using clean_id_variant [of "''_trace''" "''foo''"] by (simp only: foo insertI1 insertI2)
  have c: "clean_id (''foo'' @ ''_clean'' @ ''.csv'') = ''foo''"
    using clean_id_variant [of "''_clean''" "''foo''"] by (simp only: foo insertI1 insertI2)
  have g: "clean_id (s @ ''_trace.csv'') = clean_id (s @ ''_filtered.csv'') \<and>
           clean_id (s @ ''_clean.csv'') = clean_id (s @ ''_filtered.csv'')" for s
    using clean_id_variant [of "''_filtered''" s] clean_id_variant [of "''_trace''" s]
      clean_id_variant [of "''_clean''" s]
    by simp
  show ?thesis
    using f t c g by simp
qed

subsection \<open>Fusion of one recording\<close>

lemma iloc_col_last:
  "iloc_col df (- 1) =
     (if df = [] then Inl (Exception ''single positional indexer is out-of-bounds'')
      else Inr (last df))"
  by (cases "df = []") (simp_all add: iloc_col_def Let_def last_conv_nth nat_diff_distrib')

lemma iloc_col_first:
  "iloc_col df 0 =
     (if df = [] then Inl (Exception ''single positional indexer is out-of-bounds'')
      else Inr (hd df))"
  by (cases df) (simp_all add: iloc_col_def Let_def)

lemma signal_of_Inr:
  "signal_of env df = Inr s \<longleftrightarrow>
     df \<noteq> [] \<and> s = map (\<lambda>c. fillna 0 (to_numeric_coerce env c)) (last df)"
  by (auto simp: signal_of_def iloc_col_last)

lemma length_weighted_signal:
  "length (weighted_signal a b c) = min (length a) (min (length b) (length c))"
  by (simp add: weighted_signal_def np_add_def np_scale_def)

lemma nth_weighted_signal:
  "i < length a \<Longrightarrow> i < length b \<Longrightarrow> i < length c \<Longrightarrow>
     weighted_signal a b c ! i = a ! i * W_POS + b ! i * W_PHYSNET + c ! i * W_EFFPHYS"
  by (simp add: weighted_signal_def np_add_def np_scale_def)

lemma compute_fusion_loaded:
  assumes "read_csv env p_pos = Inr df_pos" "read_csv env p_phy = Inr df_phy"
    "read_csv env p_eff = Inr df_eff"
    and "signal_of env df_pos = Inr s_pos" "signal_of env df_phy = Inr s_phy"
    "signal_of env df_eff = Inr s_eff"
  shows "compute_fusion env p_pos p_phy p_eff =
     (let min_len = min (length s_pos) (min (length s_phy) (length s_eff))
      in if min_len < 30 then Inr None
         else Inr (Some (take min_len (hd df_pos),
                weighted_signal (take min_len s_pos) (take min_len s_phy) (take min_len s_eff))))"
proof -
  have "df_pos \<noteq> []" using assms(4) by (simp add: signal_of_Inr)
  then have "iloc_col df_pos 0 = Inr (hd df_pos)" by (simp add: iloc_col_first)
  then show ?thesis using assms by (simp add: compute_fusion_def Let_def)
qed

lemma out_paths_differ: "out_csv vid_id \<noteq> out_png vid_id"
  by (simp add: out_csv_def out_png_def)

lemma save_outputs_cases:
  "save_outputs env vid_id t ws w = (r, w') \<Longrightarrow>
     (\<exists>e. r = Inl e \<and> w' = w) \<or>
     (\<exists>e. r = Inl e \<and> length t = length ws \<and> w' = w\<lparr>files := (files w)(out_csv vid_id \<mapsto> Csv t ws)\<rparr>) \<or>
     (\<exists>fig. r = Inr True \<and> length t = length ws \<and>
        w' = w\<lparr>files := (files w)(out_csv vid_id \<mapsto> Csv t ws, out_png vid_id \<mapsto> Png fig)\<rparr>)"
  by (auto simp: save_outputs_def DataFrame_def Let_def split: if_splits option.splits)

lemma process_fusion_body_loaded:
  assumes "read_csv env p_pos = Inr df_pos" "read_csv env p_phy = Inr df_phy"
    "read_csv env p_eff = Inr df_eff"
    and "signal_of env df_pos = Inr s_pos" "signal_of env df_phy = Inr s_phy"
    "signal_of env df_eff = Inr s_eff"
    and "30 \<le> min (length s_pos) (min (length s_phy) (length s_eff))"
  shows "process_fusion_body env vid_id p_pos p_phy p_eff w =
     save_outputs env vid_id
       (take (min (length s_pos) (min (length s_phy) (length s_eff))) (hd df_pos))
       (weighted_signal
          (take (min (length s_pos) (min (length s_phy) (length s_eff))) s_pos)
          (take (min (length s_pos) (min (length s_phy) (length s_eff))) s_phy)
          (take (min (length s_pos) (min (length s_phy) (length s_eff))) s_eff)) w"
  using assms(7)
  by (auto simp: process_fusion_body_def compute_fusion_loaded [OF assms(1-6)] Let_def)

lemma process_fusion_True:
  assumes "read_csv env p_pos = Inr df_pos" "read_csv env p_phy = Inr df_phy"
    "read_csv env p_eff = Inr df_eff"
    and "signal_of env df_pos = Inr s_pos" "signal_of env df_phy = Inr s_phy"
    "signal_of env df_eff = Inr s_eff"
    and "process_fusion env vid_id p_pos p_phy p_eff w = (True, w')"
  shows "30 \<le> min (length s_pos) (min (length s_phy) (length s_eff)) \<and>
     files w' (out_csv vid_id) =
       Some (Csv (take (min (length s_pos) (min (length s_phy) (length s_eff))) (hd df_pos))
         (weighted_signal
            (take (min (length s_pos) (min (length s_phy) (length s_eff))) s_pos)
            (take (min (length s_pos) (min (length s_phy) (length s_eff))) s_phy)
            (take (min (length s_pos) (min (length s_phy) (length s_eff))) s_eff))) \<and>
     length (take (min (length s_pos) (min (length s_phy) (length s_eff))) (hd df_pos)) =
       min (length s_pos) (min (length s_phy) (length s_eff))"
proof -
  let ?m = "min (length s_pos) (min (length s_phy) (length s_eff))"
  have body: "process_fusion_body env vid_id p_pos p_phy p_eff w = (Inr True, w')"
    using assms(7)
    by (auto simp: process_fusion_def split: prod.splits sum.splits)
  have cf: "compute_fusion env p_pos p_phy p_eff =
     (if ?m < 30 then Inr None
      else Inr (Some (take ?m (hd df_pos),
              weighted_signal (take ?m s_pos) (take ?m s_phy) (take ?m s_eff))))"
    using compute_fusion_loaded [OF assms(1-6)] by (simp add: Let_def)
  have ge: "30 \<le> ?m"
    using body cf by (auto simp: process_fusion_body_def split: if_splits)
  then have "save_outputs env vid_id (take ?m (hd df_pos))
      (weighted_signal (take ?m s_pos) (take ?m s_phy) (take ?m s_eff)) w = (Inr True, w')"
    using body process_fusion_body_loaded [OF assms(1-6), where vid_id = vid_id and w = w] by simp
  from save_outputs_cases [OF this] ge show ?thesis
    by (auto simp: out_paths_differ length_weighted_signal)
qed

text \<open>
  C1. When the three files of an id are loaded, their coerced last columns \<open>pos\<close>,
  \<open>physnet\<close> and \<open>effphys\<close> have a common length of at least 30 and processing
  succeeds, the value written at each position \<open>i\<close> of the trimmed range is
  \<open>0.2 * pos[i] + 0.2 * physnet[i] + 0.6 * effphys[i]\<close>.
\<close>

theorem fused_value_is_weighted_sum:
  assumes "read_csv env p_pos = Inr df_pos" "read_csv env p_phy = Inr df_phy"
    "read_csv env p_eff = Inr df_eff"
    and "signal_of env df_pos = Inr pos" "signal_of env df_phy = Inr physnet"
    "signal_of env df_eff = Inr effphys"
    and "30 \<le> min (length pos) (min (length physnet) (length effphys))"
    and "process_fusion env vid_id p_pos p_phy p_eff w = (True, w')"
    and "i < min (length pos) (min (length physnet) (length effphys))"
  shows "\<exists>time_axis fused.
     files w' (out_csv vid_id) = Some (Csv time_axis fused) \<and>
     fused ! i = 0.2 * pos ! i + 0.2 * physnet ! i + 0.6 * effphys ! i"
proof -
  let ?m = "min (length pos) (min (length physnet) (length effphys))"
  let ?ws = "weighted_signal (take ?m pos) (take ?m physnet) (take ?m effphys)"
  have "files w' (out_csv vid_id) = Some (Csv (take ?m (hd df_pos)) ?ws)"
    using process_fusion_True [OF assms(1-6) assms(8)] by simp
  moreover have "?ws ! i = 0.2 * pos ! i + 0.2 * physnet ! i + 0.6 * effphys ! i"
    using assms(9) by (simp add: nth_weighted_signal W_POS_def W_PHYSNET_def W_EFFPHYS_def)
  ultimately show ?thesis by blast
qed

lemma example_read:
  "read_csv example_env foo_pos = Inr pos_table"
  "read_csv example_env foo_phy = Inr physnet_table"
  "read_csv example_env foo_eff = Inr effphys_table"
  by (simp_all add: example_env_def foo_pos_def foo_phy_def foo_eff_def
      PATH_POS_def PATH_PHYSNET_def PATH_EFFPHYS_def)

lemma example_parse: "parse_num example_env s = None"
  by (simp add: example_env_def)

lemma example_signal:
  "signal_of (example_env\<lparr>savefig := f\<rparr>) pos_table = Inr (0 # replicate 29 10)"
  "signal_of (example_env\<lparr>savefig := f\<rparr>) physnet_table = Inr (20 # 0 # replicate 29 20)"
  "signal_of (example_env\<lparr>savefig := f\<rparr>) effphys_table = Inr (30 # 30 # 0 # replicate 29 30)"
  by (simp_all add: signal_of_Inr pos_table_def physnet_table_def effphys_table_def
      to_numeric_coerce_def fillna_def example_parse)


lemma example_signal0:
  "signal_of example_env pos_table = Inr (0 # replicate 29 10)"
  "signal_of example_env physnet_table = Inr (20 # 0 # replicate 29 20)"
  "signal_of example_env effphys_table = Inr (30 # 30 # 0 # replicate 29 30)"
  using example_signal [of "savefig example_env"] by simp_all

lemma example_min_len:
  "min (length (0 # replicate 29 (10::real)))
     (min (length (20 # 0 # replicate 29 (20::real)))
        (length (30 # 30 # 0 # replicate 29 (30::real)))) = 30"
  by simp

lemma example_run:
  "fst (process_fusion example_env ''foo'' foo_pos foo_phy foo_eff empty_world)"
proof -
  have "process_fusion_body example_env ''foo'' foo_pos foo_phy foo_eff empty_world =
      save_outputs example_env ''foo'' (take 30 (hd pos_table))
        (weighted_signal (take 30 (0 # replicate 29 10)) (take 30 (20 # 0 # replicate 29 20))
           (take 30 (30 # 30 # 0 # replicate 29 30))) empty_world"
    using process_fusion_body_loaded [OF example_read example_signal0,
        where vid_id = "''foo''" and w = empty_world]
    unfolding example_min_len by simp
  then show ?thesis
    by (simp add: process_fusion_def save_outputs_def DataFrame_def length_weighted_signal
        pos_table_def Let_def example_env_def)
qed

theorem fused_value_is_weighted_sum_witness:
  "\<exists>w' time_axis fused.
     process_fusion example_env ''foo'' foo_pos foo_phy foo_eff empty_world = (True, w') \<and>
     files w' (out_csv ''foo'') = Some (Csv time_axis fused) \<and>
     fused ! 3 = 0.2 * 10 + 0.2 * 20 + 0.6 * 30"
proof -
  obtain w' where run:
    "process_fusion example_env ''foo'' foo_pos foo_phy foo_eff empty_world = (True, w')"
    using example_run by (metis (full_types) prod.collapse)
  have len: "30 \<le> min (length (0 # replicate 29 (10::real)))
     (min (length (20 # 0 # replicate 29 (20::real)))
        (length (30 # 30 # 0 # replicate 29 (30::real))))"
    by simp
  have i: "3 < min (length (0 # replicate 29 (10::real)))
     (min (length (20 # 0 # replicate 29 (20::real)))
        (length (30 # 30 # 0 # replicate 29 (30::real))))"
    by simp
  show ?thesis
    using fused_value_is_weighted_sum [OF example_read example_signal0 len run i] run
    by (auto simp: eval_nat_numeral)
qed

text \<open>
  C2. Under the same conditions the value column (and the time column) of the table
  written for the id has exactly the minimum of the three signal lengths as its length.
\<close>

theorem fused_output_length_is_min:
  assumes "read_csv env p_pos = Inr df_pos" "read_csv env p_phy = Inr df_phy"
    "read_csv env p_eff = Inr df_eff"
    and "signal_of env df_pos = Inr pos" "signal_of env df_phy = Inr physnet"
    "signal_of env df_eff = Inr effphys"
    and "30 \<le> min (length pos) (min (length physnet) (length effphys))"
    and "process_fusion env vid_id p_pos p_phy p_eff w = (True, w')"
  shows "\<exists>time_axis fused.
     files w' (out_csv vid_id) = Some (Csv time_axis fused) \<and>
     length fused = min (length pos) (min (length physnet) (length effphys)) \<and>
     length time_axis = min (length pos) (min (length physnet) (length effphys))"
  using process_fusion_True [OF assms(1-6) assms(8)]
  by (simp add: length_weighted_signal)

theorem fused_output_length_is_min_witness:
  "length (0 # replicate 29 (10::real)) = 30 \<and>
   length (20 # 0 # replicate 29 (20::real)) = 31 \<and>
   length (30 # 30 # 0 # replicate 29 (30::real)) = 32 \<and>
   (\<exists>w' time_axis fused.
     process_fusion example_env ''foo'' foo_pos foo_phy foo_eff empty_world = (True, w') \<and>
     files w' (out_csv ''foo'') = Some (Csv time_axis fused) \<and>
     length fused = 30 \<and> length time_axis = 30)"
proof -
  obtain w' where run:
    "process_fusion example_env ''foo'' foo_pos foo_phy foo_eff empty_world = (True, w')"
    using example_run by (metis (full_types) prod.collapse)
  have len: "30 \<le> min (length (0 # replicate 29 (10::real)))
     (min (length (20 # 0 # replicate 29 (20::real)))
        (length (30 # 30 # 0 # replicate 29 (30::real))))"
    by simp
  show ?thesis
    using fused_output_length_is_min [OF example_read example_signal0 len run] run
    by auto
qed

text \<open>
  C6. A cell of a signal column that is no number (missing, or text the parser rejects) is
  coerced to \<open>0\<close>, so at its position the written value is the weighted sum of the
  other two signals alone. This holds for each of the three files.
\<close>

theorem non_numeric_cell_contributes_zero:
  assumes "read_csv env p_pos = Inr df_pos" "read_csv env p_phy = Inr df_phy"
    "read_csv env p_eff = Inr df_eff"
    and "signal_of env df_pos = Inr pos" "signal_of env df_phy = Inr physnet"
    "signal_of env df_eff = Inr effphys"
    and "30 \<le> min (length pos) (min (length physnet) (length effphys))"
    and "process_fusion env vid_id p_pos p_phy p_eff w = (True, w')"
    and "i < min (length pos) (min (length physnet) (length effphys))"
  shows "\<exists>time_axis fused.
     files w' (out_csv vid_id) = Some (Csv time_axis fused) \<and>
     (to_numeric_coerce env (last df_pos ! i) = None \<longrightarrow>
        pos ! i = 0 \<and> fused ! i = 0.2 * physnet ! i + 0.6 * effphys ! i) \<and>
     (to_numeric_coerce env (last df_phy ! i) = None \<longrightarrow>
        physnet ! i = 0 \<and> fused ! i = 0.2 * pos ! i + 0.6 * effphys ! i) \<and>
     (to_numeric_coerce env (last df_eff ! i) = None \<longrightarrow>
        effphys ! i = 0 \<and> fused ! i = 0.2 * pos ! i + 0.2 * physnet ! i)"
proof -
  let ?m = "min (length pos) (min (length physnet) (length effphys))"
  let ?ws = "weighted_signal (take ?m pos) (take ?m physnet) (take ?m effphys)"
  have written: "files w' (out_csv vid_id) = Some (Csv (take ?m (hd df_pos)) ?ws)"
    using process_fusion_True [OF assms(1-6) assms(8)] by simp
  have val: "?ws ! i = 0.2 * pos ! i + 0.2 * physnet ! i + 0.6 * effphys ! i"
    using assms(9) by (simp add: nth_weighted_signal W_POS_def W_PHYSNET_def W_EFFPHYS_def)
  have zero: "s ! i = 0"
    if "signal_of env df = Inr s" "i < length s" "to_numeric_coerce env (last df ! i) = None"
    for df s
    using that by (simp add: signal_of_Inr fillna_def)
  have "to_numeric_coerce env (last df_pos ! i) = None \<longrightarrow> pos ! i = 0"
    using zero [OF assms(4)] assms(9) by simp
  moreover have "to_numeric_coerce env (last df_phy ! i) = None \<longrightarrow> physnet ! i = 0"
    using zero [OF assms(5)] assms(9) by simp
  moreover have "to_numeric_coerce env (last df_eff ! i) = None \<longrightarrow> effphys ! i = 0"
    using zero [OF assms(6)] assms(9) by simp
  ultimately show ?thesis
    using written val by auto
qed

theorem non_numeric_cell_contributes_zero_witness:
  "to_numeric_coerce example_env (last pos_table ! 0) = None \<and>
   to_numeric_coerce example_env (last physnet_table ! 1) = None \<and>
   to_numeric_coerce example_env (last effphys_table ! 2) = None \<and>
   (\<exists>w' time_axis fused.
     process_fusion example_env ''foo'' foo_pos foo_phy foo_eff empty_world = (True, w') \<and>
     files w' (out_csv ''foo'') = Some (Csv time_axis fused) \<and>
     fused ! 0 = 0.2 * 20 + 0.6 * 30 \<and>
     fused ! 1 = 0.2 * 10 + 0.6 * 30 \<and>
     fused ! 2 = 0.2 * 10 + 0.2 * 20)"
proof -
  obtain w' where run:
    "process_fusion example_env ''foo'' foo_pos foo_phy foo_eff empty_world = (True, w')"
    using example_run by (metis (full_types) prod.collapse)
  have len: "30 \<le> min (length (0 # replicate 29 (10::real)))
     (min (length (20 # 0 # replicate 29 (20::real)))
        (length (30 # 30 # 0 # replicate 29 (30::real))))"
    by simp
  have i: "0 < min (length (0 # replicate 29 (10::real)))
     (min (length (20 # 0 # replicate 29 (20::real)))
        (length (30 # 30 # 0 # replicate 29 (30::real))))"
    "1 < min (length (0 # replicate 29 (10::real)))
     (min (length (20 # 0 # replicate 29 (20::real)))
        (length (30 # 30 # 0 # replicate 29 (30::real))))"
    "2 < min (length (0 # replicate 29 (10::real)))
     (min (length (20 # 0 # replicate 29 (20::real)))
        (length (30 # 30 # 0 # replicate 29 (30::real))))"
    by simp_all
  have bad: "to_numeric_coerce example_env (last pos_table ! 0) = None"
    "to_numeric_coerce example_env (last physnet_table ! 1) = None"
    "to_numeric_coerce example_env (last effphys_table ! 2) = None"
    by (simp_all add: to_numeric_coerce_def pos_table_def physnet_table_def effphys_table_def
        example_parse)
  show ?thesis
    using non_numeric_cell_contributes_zero [OF example_read example_signal0 len run i(1)]
      non_numeric_cell_contributes_zero [OF example_read example_signal0 len run i(2)]
      non_numeric_cell_contributes_zero [OF example_read example_signal0 len run i(3)]
      run bad
    by (auto simp: eval_nat_numeral)
qed

lemma main_loop_step:
  assumes "getitem map_pos vid_id = Inr p_pos" "getitem map_phy vid_id = Inr p_phy"
    "getitem map_eff vid_id = Inr p_eff"
    and "process_fusion env vid_id p_pos p_phy p_eff (emit (Fusing (i + 1) n vid_id) w) = (ok, w2)"
  shows "main_loop env map_pos map_phy map_eff n ((i, vid_id) # rest) count w =
     (if ok then main_loop env map_pos map_phy map_eff n rest (count + 1) (emit Done w2)
      else main_loop env map_pos map_phy map_eff n rest count (emit Failed w2))"
  using assms by (simp add: Let_def)

text \<open>
  C3. When the common length of the three signals is below 30, \<open>process_fusion\<close>
  returns \<open>False\<close> and leaves the world as it was: neither the table nor the plot is
  written, and nothing is printed by it. The batch loop then prints the failure message,
  does not count the id, and goes on with the remaining ids.
\<close>

theorem short_overlap_reports_failure_without_output:
  assumes "read_csv env p_pos = Inr df_pos" "read_csv env p_phy = Inr df_phy"
    "read_csv env p_eff = Inr df_eff"
    and "signal_of env df_pos = Inr s_pos" "signal_of env df_phy = Inr s_phy"
    "signal_of env df_eff = Inr s_eff"
    and "min (length s_pos) (min (length s_phy) (length s_eff)) < 30"
    and "getitem map_pos vid_id = Inr p_pos" "getitem map_phy vid_id = Inr p_phy"
    "getitem map_eff vid_id = Inr p_eff"
  shows "process_fusion env vid_id p_pos p_phy p_eff w = (False, w) \<and>
     main_loop env map_pos map_phy map_eff n ((i, vid_id) # rest) count w =
       main_loop env map_pos map_phy map_eff n rest count
         (emit Failed (emit (Fusing (i + 1) n vid_id) w))"
proof -
  have pf: "process_fusion env vid_id p_pos p_phy p_eff w0 = (False, w0)" for w0
    using assms(7)
    by (simp add: process_fusion_def process_fusion_body_def
        compute_fusion_loaded [OF assms(1-6)] Let_def)
  show ?thesis
    using pf main_loop_step [OF assms(8-10) pf] by simp
qed

theorem short_overlap_reports_failure_without_output_witness:
  "min (length (replicate 29 (10::real)))
     (min (length (20 # 0 # replicate 29 (20::real)))
        (length (30 # 30 # 0 # replicate 29 (30::real)))) < 30 \<and>
   process_fusion (example_env\<lparr>read_csv := \<lambda>p. if p = foo_pos then Inr short_table else read_csv example_env p\<rparr>)
     ''foo'' foo_pos foo_phy foo_eff empty_world = (False, empty_world) \<and>
   main_loop (example_env\<lparr>read_csv := \<lambda>p. if p = foo_pos then Inr short_table else read_csv example_env p\<rparr>)
     [(''foo'', foo_pos)] [(''foo'', foo_phy)] [(''foo'', foo_eff)] 1 [(0, ''foo'')] 0 empty_world =
   (Inr 0, \<lparr>files = Map.empty, stdout = [Fusing 1 1 ''foo'', Failed]\<rparr>)"
proof -
  let ?env = "example_env\<lparr>read_csv := \<lambda>p. if p = foo_pos then Inr short_table else read_csv example_env p\<rparr>"
  have neq: "foo_phy \<noteq> foo_pos" "foo_eff \<noteq> foo_pos"
    by (simp_all add: foo_pos_def foo_phy_def foo_eff_def PATH_POS_def PATH_PHYSNET_def
        PATH_EFFPHYS_def)
  have rd: "read_csv ?env foo_pos = Inr short_table" "read_csv ?env foo_phy = Inr physnet_table"
    "read_csv ?env foo_eff = Inr effphys_table"
    using neq example_read by simp_all
  have sg: "signal_of ?env short_table = Inr (replicate 29 10)"
    "signal_of ?env physnet_table = Inr (20 # 0 # replicate 29 20)"
    "signal_of ?env effphys_table = Inr (30 # 30 # 0 # replicate 29 30)"
    by (simp_all add: signal_of_Inr short_table_def physnet_table_def effphys_table_def
      to_numeric_coerce_def fillna_def example_parse)
  have short: "min (length (replicate 29 (10::real)))
     (min (length (20 # 0 # replicate 29 (20::real)))
        (length (30 # 30 # 0 # replicate 29 (30::real)))) < 30"
    by simp
  have gi: "getitem [(''foo'', foo_pos)] ''foo'' = Inr foo_pos"
    "getitem [(''foo'', foo_phy)] ''foo'' = Inr foo_phy"
    "getitem [(''foo'', foo_eff)] ''foo'' = Inr foo_eff"
    by (simp_all add: getitem_def)
  show ?thesis
    using short_overlap_reports_failure_without_output [OF rd sg short gi,
        where w = empty_world and n = 1 and i = 0 and rest = "[]" and count = 0]
    by (simp add: emit_def empty_world_def)
qed


lemma save_outputs_plot_fails:
  assumes "length t = length ws"
    and "\<forall>tbl. to_csv env (out_csv vid_id) tbl = None"
    and "\<forall>fig. savefig env (out_png vid_id) fig = Some e"
  shows "save_outputs env vid_id t ws w =
      (Inl e, w\<lparr>files := (files w)(out_csv vid_id \<mapsto> Csv t ws)\<rparr>)"
  using assms by (simp add: save_outputs_def DataFrame_def Let_def)

lemma process_fusion_caught:
  assumes "process_fusion_body env vid_id p_pos p_phy p_eff w = (Inl e, w1)"
  shows "process_fusion env vid_id p_pos p_phy p_eff w =
      (False, emit (ErrorProcessing vid_id e) w1)"
  using assms by (simp add: process_fusion_def)

text \<open>
  C10. When the table of an id can be written and rendering the plot raises, the id is
  reported as failed (the exception is printed and \<open>False\<close> returned), yet the table
  written before stays in the output directory.
\<close>

theorem table_remains_when_plot_fails:
  assumes "read_csv env p_pos = Inr df_pos" "read_csv env p_phy = Inr df_phy"
    "read_csv env p_eff = Inr df_eff"
    and "signal_of env df_pos = Inr s_pos" "signal_of env df_phy = Inr s_phy"
    "signal_of env df_eff = Inr s_eff"
    and "30 \<le> min (length s_pos) (min (length s_phy) (length s_eff))"
    and "length (hd df_pos) = length (last df_pos)"
    and "\<forall>tbl. to_csv env (out_csv vid_id) tbl = None"
    and "\<forall>fig. savefig env (out_png vid_id) fig = Some e"
  shows "\<exists>time_axis fused.
     length fused = min (length s_pos) (min (length s_phy) (length s_eff)) \<and>
     process_fusion env vid_id p_pos p_phy p_eff w =
       (False, emit (ErrorProcessing vid_id e)
                 (w\<lparr>files := (files w)(out_csv vid_id \<mapsto> Csv time_axis fused)\<rparr>))"
proof -
  define m where "m = min (length s_pos) (min (length s_phy) (length s_eff))"
  define ws where "ws = weighted_signal (take m s_pos) (take m s_phy) (take m s_eff)"
  define t where "t = take m (hd df_pos)"
  have len: "length ws = m"
    by (simp add: ws_def m_def length_weighted_signal)
  have "length (last df_pos) = length s_pos"
    using assms(4) by (auto simp: signal_of_Inr)
  then have lt: "length t = length ws"
    using assms(8) unfolding len by (simp add: t_def m_def)
  have body0: "process_fusion_body env vid_id p_pos p_phy p_eff w = save_outputs env vid_id t ws w"
    unfolding t_def ws_def m_def by (rule process_fusion_body_loaded [OF assms(1-7)])
  have body: "process_fusion_body env vid_id p_pos p_phy p_eff w =
      (Inl e, w\<lparr>files := (files w)(out_csv vid_id \<mapsto> Csv t ws)\<rparr>)"
    unfolding body0 by (rule save_outputs_plot_fails [OF lt assms(9,10)])
  have pf: "process_fusion env vid_id p_pos p_phy p_eff w =
      (False, emit (ErrorProcessing vid_id e)
                (w\<lparr>files := (files w)(out_csv vid_id \<mapsto> Csv t ws)\<rparr>))"
    by (rule process_fusion_caught [OF body])
  show ?thesis
    unfolding m_def [symmetric] using len pf by (intro exI [of _ t] exI [of _ ws] conjI)
qed

theorem table_remains_when_plot_fails_witness:
  "\<exists>time_axis fused.
     length fused = 30 \<and>
     process_fusion (example_env\<lparr>savefig := \<lambda>p fig. Some (Exception ''render failed'')\<rparr>)
       ''foo'' foo_pos foo_phy foo_eff empty_world =
       (False, \<lparr>files = [out_csv ''foo'' \<mapsto> Csv time_axis fused],
                stdout = [ErrorProcessing ''foo'' (Exception ''render failed'')]\<rparr>) \<and>
     [out_csv ''foo'' \<mapsto> Csv time_axis fused] (out_png ''foo'') = None"
proof -
  let ?env = "example_env\<lparr>savefig := \<lambda>p fig. Some (Exception ''render failed'')\<rparr>"
  have rd: "read_csv ?env foo_pos = Inr pos_table" "read_csv ?env foo_phy = Inr physnet_table"
    "read_csv ?env foo_eff = Inr effphys_table"
    using example_read by simp_all
  have len: "30 \<le> min (length (0 # replicate 29 (10::real)))
     (min (length (20 # 0 # replicate 29 (20::real)))
        (length (30 # 30 # 0 # replicate 29 (30::real))))"
    by simp
  have rect: "length (hd pos_table) = length (last pos_table)"
    by (simp add: pos_table_def)
  have csv: "\<forall>tbl. to_csv ?env (out_csv ''foo'') tbl = None"
    by (simp add: example_env_def)
  have png: "\<forall>fig. savefig ?env (out_png ''foo'') fig = Some (Exception ''render failed'')"
    by simp
  obtain t ws where r: "length ws = 30"
    "process_fusion ?env ''foo'' foo_pos foo_phy foo_eff empty_world =
       (False, emit (ErrorProcessing ''foo'' (Exception ''render failed''))
                 (empty_world\<lparr>files := (files empty_world)(out_csv ''foo'' \<mapsto> Csv t ws)\<rparr>))"
    using table_remains_when_plot_fails [OF rd example_signal len rect csv png,
        where w = empty_world] unfolding example_min_len by blast
  have w: "emit (ErrorProcessing ''foo'' (Exception ''render failed''))
        (empty_world\<lparr>files := (files empty_world)(out_csv ''foo'' \<mapsto> Csv t ws)\<rparr>) =
      \<lparr>files = [out_csv ''foo'' \<mapsto> Csv t ws],
       stdout = [ErrorProcessing ''foo'' (Exception ''render failed'')]\<rparr>"
    by (simp add: emit_def empty_world_def)
  have p: "[out_csv ''foo'' \<mapsto> Csv t ws] (out_png ''foo'') = None"
    using out_paths_differ [of "''foo''"] by simp
  show ?thesis
  proof (intro exI conjI)
    show "length ws = 30" by (rule r(1))
    show "process_fusion ?env ''foo'' foo_pos foo_phy foo_eff empty_world =
       (False, \<lparr>files = [out_csv ''foo'' \<mapsto> Csv t ws],
                stdout = [ErrorProcessing ''foo'' (Exception ''render failed'')]\<rparr>)"
      unfolding r(2) w by (rule refl)
    show "[out_csv ''foo'' \<mapsto> Csv t ws] (out_png ''foo'') = None" by (rule p)
  qed
qed

subsection \<open>The file index\<close>

lemma index_file_skip:
  "\<not> (endswith file ''.csv'' \<and> \<not> str_in ''ensemble'' file) \<Longrightarrow> index_file rootdir file acc = acc"
  by (auto simp: index_file_def)

lemma fold_index_file_filter:
  "fold (index_file rootdir) filenames acc =
   fold (index_file rootdir)
     (filter (\<lambda>f. endswith f ''.csv'' \<and> \<not> str_in ''ensemble'' f) filenames) acc"
  by (induction filenames arbitrary: acc) (simp_all add: index_file_skip)

lemma fold_walk_filter:
  "fold (\<lambda>(rootdir, filenames) acc. fold (index_file rootdir) filenames acc) dirs acc =
   fold (\<lambda>(rootdir, filenames) acc. fold (index_file rootdir) filenames acc)
     (map (\<lambda>(d, fs). (d, filter (\<lambda>f. endswith f ''.csv'' \<and> \<not> str_in ''ensemble'' f) fs)) dirs) acc"
proof (induction dirs arbitrary: acc)
  case Nil
  then show ?case by simp
next
  case (Cons a dirs)
  obtain d fs where a: "a = (d, fs)" by (cases a)
  show ?case
    unfolding a using Cons [of "fold (index_file d) fs acc"] fold_index_file_filter [of d fs acc]
    by simp
qed

lemma set_update_subset: "x \<in> set (AList.update k v al) \<Longrightarrow> x = (k, v) \<or> x \<in> set al"
  by (induction al) (auto split: if_splits)

lemma fold_index_file_entries:
  assumes "x \<in> set (fst (fold (index_file rootdir) filenames acc))"
  shows "x \<in> set (fst acc) \<or>
     (\<exists>file \<in> set filenames. endswith file ''.csv'' \<and> \<not> str_in ''ensemble'' file \<and>
        x = (clean_id file, rootdir @ [file]))"
  using assms
proof (induction filenames arbitrary: acc)
  case Nil
  then show ?case by simp
next
  case (Cons f fs)
  from Cons.IH [of "index_file rootdir f acc"] Cons.prems
  consider "x \<in> set (fst (index_file rootdir f acc))"
    | "\<exists>file \<in> set fs. endswith file ''.csv'' \<and> \<not> str_in ''ensemble'' file \<and>
        x = (clean_id file, rootdir @ [file])"
    by auto
  then show ?case
  proof cases
    case 1
    then show ?thesis
      by (auto simp: index_file_def split: if_splits dest: set_update_subset)
  next
    case 2
    then show ?thesis by auto
  qed
qed

lemma fold_walk_entries:
  assumes "x \<in> set (fst (fold (\<lambda>(rootdir, filenames) acc. fold (index_file rootdir) filenames acc) dirs acc))"
  shows "x \<in> set (fst acc) \<or>
     (\<exists>(rootdir, filenames) \<in> set dirs. \<exists>file \<in> set filenames.
        endswith file ''.csv'' \<and> \<not> str_in ''ensemble'' file \<and>
        x = (clean_id file, rootdir @ [file]))"
  using assms
proof (induction dirs arbitrary: acc)
  case Nil
  then show ?case by simp
next
  case (Cons a dirs)
  obtain d fs where a: "a = (d, fs)" by (cases a)
  from Cons.IH [of "fold (index_file d) fs acc"] Cons.prems
  consider "x \<in> set (fst (fold (index_file d) fs acc))"
    | "\<exists>(rootdir, filenames) \<in> set dirs. \<exists>file \<in> set filenames.
        endswith file ''.csv'' \<and> \<not> str_in ''ensemble'' file \<and>
        x = (clean_id file, rootdir @ [file])"
    by (auto simp: a)
  then show ?case
  proof cases
    case 1
    from fold_index_file_entries [OF 1] show ?thesis
      by (auto simp: a)
  next
    case 2
    then show ?thesis by auto
  qed
qed

lemma map_files_index:
  "fst (map_files env root_folder w) =
     (if path_exists env root_folder
      then fst (fold (\<lambda>(rootdir, filenames) acc. fold (index_file rootdir) filenames acc)
                 (walk env root_folder) ([], 0))
      else [])"
  by (simp add: map_files_def Let_def split: prod.splits)

text \<open>
  C9. Every entry of the index built for a directory comes from a file of the walk whose
  name ends in \<open>.csv\<close> and does not contain \<open>ensemble\<close>; and the result of
  \<open>map_files\<close> (index, count and messages) is the same as on a walk from which all
  other files have been removed, so every other file is ignored.
\<close>

theorem index_holds_only_csv_without_ensemble:
  "(\<forall>(vid_id, p) \<in> set (fst (map_files env root_folder w)).
      \<exists>(rootdir, filenames) \<in> set (walk env root_folder). \<exists>file \<in> set filenames.
        endswith file ''.csv'' \<and> \<not> str_in ''ensemble'' file \<and>
        vid_id = clean_id file \<and> p = rootdir @ [file]) \<and>
   map_files env root_folder w =
     map_files
       (env\<lparr>walk := \<lambda>r. map (\<lambda>(d, fs).
           (d, filter (\<lambda>f. endswith f ''.csv'' \<and> \<not> str_in ''ensemble'' f) fs)) (walk env r)\<rparr>)
       root_folder w"
proof
  show "\<forall>(vid_id, p) \<in> set (fst (map_files env root_folder w)).
      \<exists>(rootdir, filenames) \<in> set (walk env root_folder). \<exists>file \<in> set filenames.
        endswith file ''.csv'' \<and> \<not> str_in ''ensemble'' file \<and>
        vid_id = clean_id file \<and> p = rootdir @ [file]"
  proof (cases "path_exists env root_folder")
    case True
    show ?thesis
      using fold_walk_entries [of _ "walk env root_folder" "([], 0)"]
      by (fastforce simp: map_files_index True)
  next
    case False
    then show ?thesis by (simp add: map_files_index)
  qed
  show "map_files env root_folder w =
     map_files
       (env\<lparr>walk := \<lambda>r. map (\<lambda>(d, fs).
           (d, filter (\<lambda>f. endswith f ''.csv'' \<and> \<not> str_in ''ensemble'' f) fs)) (walk env r)\<rparr>)
       root_folder w"
    using fold_walk_filter [of "walk env root_folder" "([], 0)"]
    by (simp add: map_files_def Let_def)
qed

lemma common_ids_Nil:
  "common_ids env [] map_phy map_eff = []" "common_ids env map_pos [] map_eff = []"
  "common_ids env map_pos map_phy [] = []"
  by (simp_all add: common_ids_def)

text \<open>
  C8. For a directory that does not exist, \<open>map_files\<close> prints that the folder was not
  found and returns the empty index (it returns normally: no operation that can raise is
  reached), and with an empty index in any of the three places there is no common id.
\<close>

theorem missing_folder_gives_empty_index:
  assumes "\<not> path_exists env root_folder"
  shows "map_files env root_folder w =
           ([], emit FolderNotFound (emit (Scanning root_folder) w)) \<and>
         common_ids env (fst (map_files env root_folder w)) map_phy map_eff = [] \<and>
         common_ids env map_pos (fst (map_files env root_folder w)) map_eff = [] \<and>
         common_ids env map_pos map_phy (fst (map_files env root_folder w)) = []"
  using assms by (simp add: map_files_def Let_def common_ids_Nil)

lemma example_index:
  "fst (map_files example_env PATH_POS w) = [(''foo'', foo_pos)]"
  "fst (map_files example_env PATH_PHYSNET w) = [(''foo'', foo_phy), (''bar'', PATH_PHYSNET @ [''bar_trace.csv''])]"
  "fst (map_files example_env PATH_EFFPHYS w) = [(''foo'', foo_eff)]"
    by (simp_all add: map_files_index example_env_def index_file_def endswith_def str_in_def
        suffix_to_prefix sublist_code clean_id_def splitext_def rfind_def foo_pos_def foo_phy_def foo_eff_def
        PATH_POS_def PATH_PHYSNET_def PATH_EFFPHYS_def)

theorem index_holds_only_csv_without_ensemble_witness:
  "(''foo'', foo_eff) \<in> set (fst (map_files example_env PATH_EFFPHYS empty_world)) \<and>
   walk example_env PATH_EFFPHYS = [(PATH_EFFPHYS, [''foo_clean.csv'', ''foo_ensemble.csv''])] \<and>
   (\<exists>(rootdir, filenames) \<in> set (walk example_env PATH_EFFPHYS). \<exists>file \<in> set filenames.
        endswith file ''.csv'' \<and> \<not> str_in ''ensemble'' file \<and>
        ''foo'' = clean_id file \<and> foo_eff = rootdir @ [file])"
proof -
  have mem: "(''foo'', foo_eff) \<in> set (fst (map_files example_env PATH_EFFPHYS empty_world))"
    by (simp add: example_index)
  have wk: "walk example_env PATH_EFFPHYS =
      [(PATH_EFFPHYS, [''foo_clean.csv'', ''foo_ensemble.csv''])]"
    by (simp add: example_env_def PATH_POS_def PATH_PHYSNET_def PATH_EFFPHYS_def)
  have "\<forall>(vid_id, p) \<in> set (fst (map_files example_env PATH_EFFPHYS empty_world)).
      \<exists>(rootdir, filenames) \<in> set (walk example_env PATH_EFFPHYS). \<exists>file \<in> set filenames.
        endswith file ''.csv'' \<and> \<not> str_in ''ensemble'' file \<and>
        vid_id = clean_id file \<and> p = rootdir @ [file]"
    using index_holds_only_csv_without_ensemble [of example_env PATH_EFFPHYS empty_world]
    by (rule conjunct1)
  from bspec [OF this mem] mem wk show ?thesis
    by simp
qed

theorem missing_folder_gives_empty_index_witness:
  "\<not> path_exists (example_env\<lparr>path_exists := \<lambda>p. p \<noteq> PATH_EFFPHYS\<rparr>) PATH_EFFPHYS \<and>
   map_files (example_env\<lparr>path_exists := \<lambda>p. p \<noteq> PATH_EFFPHYS\<rparr>) PATH_EFFPHYS empty_world =
     ([], \<lparr>files = Map.empty, stdout = [Scanning PATH_EFFPHYS, FolderNotFound]\<rparr>) \<and>
   common_ids (example_env\<lparr>path_exists := \<lambda>p. p \<noteq> PATH_EFFPHYS\<rparr>)
     [(''foo'', foo_pos)] [(''foo'', foo_phy)]
     (fst (map_files (example_env\<lparr>path_exists := \<lambda>p. p \<noteq> PATH_EFFPHYS\<rparr>) PATH_EFFPHYS
        empty_world)) = []"
proof -
  let ?env = "example_env\<lparr>path_exists := \<lambda>p. p \<noteq> PATH_EFFPHYS\<rparr>"
  have missing: "\<not> path_exists ?env PATH_EFFPHYS"
    by simp
  note t = missing_folder_gives_empty_index [OF missing, where w = empty_world
        and map_pos = "[(''foo'', foo_pos)]" and map_phy = "[(''foo'', foo_phy)]"
        and map_eff = "[]"]
  have e: "emit FolderNotFound (emit (Scanning PATH_EFFPHYS) empty_world) =
      \<lparr>files = Map.empty, stdout = [Scanning PATH_EFFPHYS, FolderNotFound]\<rparr>"
    by (simp add: emit_def empty_world_def)
  have a: "map_files ?env PATH_EFFPHYS empty_world =
      ([], \<lparr>files = Map.empty, stdout = [Scanning PATH_EFFPHYS, FolderNotFound]\<rparr>)"
    using t unfolding e by (rule conjunct1)
  have c: "common_ids ?env [(''foo'', foo_pos)] [(''foo'', foo_phy)]
      (fst (map_files ?env PATH_EFFPHYS empty_world)) = []"
    using t by (elim conjE)
  show ?thesis
    using missing a c by (intro conjI)
qed

subsection \<open>The batch loop\<close>

lemma processed_ids_append [simp]:
  "processed_ids (xs @ ys) = processed_ids xs @ processed_ids ys"
  by (simp add: processed_ids_def map_filter_def)

lemma processed_ids_simps [simp]:
  "processed_ids [] = []"
  "processed_ids (Fusing i n vid_id # evs) = vid_id # processed_ids evs"
  "processed_ids (Starting # evs) = processed_ids evs"
  "processed_ids (Scanning p # evs) = processed_ids evs"
  "processed_ids (FolderNotFound # evs) = processed_ids evs"
  "processed_ids (FoundFiles k # evs) = processed_ids evs"
  "processed_ids (ErrorProcessing v e # evs) = processed_ids evs"
  "processed_ids (NoMatchingIds # evs) = processed_ids evs"
  "processed_ids (FoundMatching k # evs) = processed_ids evs"
  "processed_ids (Done # evs) = processed_ids evs"
  "processed_ids (Failed # evs) = processed_ids evs"
  "processed_ids (Summary k # evs) = processed_ids evs"
  by (simp_all add: processed_ids_def map_filter_def)

lemma stdout_emit [simp]: "stdout (emit e w) = stdout w @ [e]"
  by (simp add: emit_def)

lemma files_emit [simp]: "files (emit e w) = files w"
  by (simp add: emit_def)

lemma save_outputs_stdout:
  "stdout (snd (save_outputs env vid_id t ws w)) = stdout w"
  by (simp add: save_outputs_def DataFrame_def Let_def split: option.splits)

lemma save_outputs_files:
  "p \<noteq> out_csv vid_id \<Longrightarrow> p \<noteq> out_png vid_id \<Longrightarrow>
     files (snd (save_outputs env vid_id t ws w)) p = files w p"
  by (simp add: save_outputs_def DataFrame_def Let_def split: option.splits)

lemma process_fusion_body_stdout:
  "stdout (snd (process_fusion_body env vid_id p_pos p_phy p_eff w)) = stdout w"
  by (simp add: process_fusion_body_def save_outputs_stdout split: sum.splits option.splits prod.splits)

lemma process_fusion_body_files:
  "p \<noteq> out_csv vid_id \<Longrightarrow> p \<noteq> out_png vid_id \<Longrightarrow>
     files (snd (process_fusion_body env vid_id p_pos p_phy p_eff w)) p = files w p"
  by (simp add: process_fusion_body_def save_outputs_files split: sum.splits option.splits prod.splits)

lemma process_fusion_processed:
  "processed_ids (stdout (snd (process_fusion env vid_id p_pos p_phy p_eff w))) =
     processed_ids (stdout w)"
  using process_fusion_body_stdout [of env vid_id p_pos p_phy p_eff w]
  by (auto simp: process_fusion_def split: prod.splits sum.splits)

lemma process_fusion_files:
  "p \<noteq> out_csv vid_id \<Longrightarrow> p \<noteq> out_png vid_id \<Longrightarrow>
     files (snd (process_fusion env vid_id p_pos p_phy p_eff w)) p = files w p"
  using process_fusion_body_files [of p vid_id env p_pos p_phy p_eff w]
  by (auto simp: process_fusion_def split: prod.splits sum.splits)

lemma getitem_key:
  "k \<in> fst ` set d \<Longrightarrow> \<exists>v. getitem d k = Inr v"
  by (cases "map_of d k") (auto simp: getitem_def map_of_eq_None_iff)

lemma main_loop_processed:
  assumes "\<forall>vid_id \<in> snd ` set ids.
     vid_id \<in> fst ` set map_pos \<and> vid_id \<in> fst ` set map_phy \<and> vid_id \<in> fst ` set map_eff"
  shows "(\<exists>c. fst (main_loop env map_pos map_phy map_eff n ids count w) = Inr c) \<and>
     processed_ids (stdout (snd (main_loop env map_pos map_phy map_eff n ids count w))) =
       processed_ids (stdout w) @ map snd ids \<and>
     (\<forall>p. (\<forall>vid_id \<in> snd ` set ids. p \<noteq> out_csv vid_id \<and> p \<noteq> out_png vid_id) \<longrightarrow>
        files (snd (main_loop env map_pos map_phy map_eff n ids count w)) p = files w p)"
  using assms
proof (induction ids arbitrary: count w)
  case Nil
  then show ?case by simp
next
  case (Cons a ids)
  obtain i vid_id where a: "a = (i, vid_id)" by (cases a)
  from Cons.prems obtain p_pos p_phy p_eff where
    g: "getitem map_pos vid_id = Inr p_pos" "getitem map_phy vid_id = Inr p_phy"
      "getitem map_eff vid_id = Inr p_eff"
    using getitem_key [of vid_id map_pos] getitem_key [of vid_id map_phy]
      getitem_key [of vid_id map_eff]
    by (auto simp: a)
  obtain ok w2 where
    pf: "process_fusion env vid_id p_pos p_phy p_eff (emit (Fusing (i + 1) n vid_id) w) = (ok, w2)"
    by (cases "process_fusion env vid_id p_pos p_phy p_eff (emit (Fusing (i + 1) n vid_id) w)")
  have pr: "processed_ids (stdout w2) = processed_ids (stdout w) @ [vid_id]"
    using process_fusion_processed [of env vid_id p_pos p_phy p_eff "emit (Fusing (i + 1) n vid_id) w"]
    unfolding pf by simp
  have fl: "files w2 p = files w p" if "p \<noteq> out_csv vid_id" "p \<noteq> out_png vid_id" for p
    using process_fusion_files [OF that, of env p_pos p_phy p_eff "emit (Fusing (i + 1) n vid_id) w"]
    unfolding pf by simp
  have rest: "\<forall>vid_id \<in> snd ` set ids.
     vid_id \<in> fst ` set map_pos \<and> vid_id \<in> fst ` set map_phy \<and> vid_id \<in> fst ` set map_eff"
    using Cons.prems by simp
  define count' where "count' = (if ok then count + 1 else count)"
  define w3 where "w3 = emit (if ok then Done else Failed) w2"
  have step: "main_loop env map_pos map_phy map_eff n (a # ids) count w =
      main_loop env map_pos map_phy map_eff n ids count' w3"
    unfolding a using main_loop_step [OF g pf, where rest = ids and count = count]
    by (simp add: count'_def w3_def)
  have pr3: "processed_ids (stdout w3) = processed_ids (stdout w) @ [vid_id]"
    using pr by (simp add: w3_def)
  have fl3: "files w3 p = files w p" if "p \<noteq> out_csv vid_id" "p \<noteq> out_png vid_id" for p
    using fl [OF that] by (simp add: w3_def)
  from Cons.IH [OF rest, of count' w3] show ?case
    unfolding step using pr3 fl3 by (auto simp: a)
qed

lemma map_files_effects:
  "processed_ids (stdout (snd (map_files env root_folder w))) = processed_ids (stdout w)"
  "files (snd (map_files env root_folder w)) = files w"
  by (simp_all add: map_files_def Let_def split: prod.splits)

lemma map_files_index_indep:
  "fst (map_files env root_folder w) = fst (map_files env root_folder w')"
  by (simp add: map_files_index)

lemma set_common_ids:
  "set (common_ids env map_pos map_phy map_eff) =
     fst ` set map_pos \<inter> fst ` set map_phy \<inter> fst ` set map_eff"
  by (auto simp: common_ids_def)

lemma distinct_common_ids: "distinct (common_ids env map_pos map_phy map_eff)"
  by (simp add: common_ids_def)

lemma out_path_inj:
  "out_csv a = out_csv b \<longleftrightarrow> a = b" "out_png a = out_png b \<longleftrightarrow> a = b"
  "out_csv a \<noteq> out_png b" "out_png a \<noteq> out_csv b"
proof -
  show "out_csv a = out_csv b \<longleftrightarrow> a = b" "out_png a = out_png b \<longleftrightarrow> a = b"
    by (simp_all add: out_csv_def out_png_def)
  have "last (a @ ''_weighted.csv'') \<noteq> last (b @ ''_graph.png'')" for a b
    by simp
  then have "a @ ''_weighted.csv'' \<noteq> b @ ''_graph.png''" for a b
    by metis
  then show "out_csv a \<noteq> out_png b" "out_png a \<noteq> out_csv b"
    by (simp_all add: out_csv_def out_png_def)
qed

lemma main_run:
  fixes env w
  defines "ids \<equiv> common_ids env (fst (map_files env PATH_POS w))
       (fst (map_files env PATH_PHYSNET w)) (fst (map_files env PATH_EFFPHYS w))"
  shows "fst (main env w) = makedirs env OUTPUT_FOLDER \<and>
     processed_ids (stdout (snd (main env w))) =
       processed_ids (stdout w) @ (if makedirs env OUTPUT_FOLDER = None then ids else []) \<and>
     (\<forall>p. (\<forall>vid_id \<in> set ids. p \<noteq> out_csv vid_id \<and> p \<noteq> out_png vid_id) \<longrightarrow>
        files (snd (main env w)) p = files w p)"
proof (cases "makedirs env OUTPUT_FOLDER")
  case (Some e)
  then show ?thesis by (simp add: main_def Let_def)
next
  case None
  define w0 where "w0 = emit Starting w"
  obtain map_pos w1 where m1: "map_files env PATH_POS w0 = (map_pos, w1)"
    by (cases "map_files env PATH_POS w0")
  obtain map_phy w2 where m2: "map_files env PATH_PHYSNET w1 = (map_phy, w2)"
    by (cases "map_files env PATH_PHYSNET w1")
  obtain map_eff w3 where m3: "map_files env PATH_EFFPHYS w2 = (map_eff, w3)"
    by (cases "map_files env PATH_EFFPHYS w2")
  have maps: "map_pos = fst (map_files env PATH_POS w)"
    "map_phy = fst (map_files env PATH_PHYSNET w)" "map_eff = fst (map_files env PATH_EFFPHYS w)"
    using m1 m2 m3 map_files_index_indep [of env PATH_POS w0 w]
      map_files_index_indep [of env PATH_PHYSNET w1 w]
      map_files_index_indep [of env PATH_EFFPHYS w2 w]
    by simp_all
  have ids: "ids = common_ids env map_pos map_phy map_eff"
    by (simp add: ids_def maps)
  have e1: "processed_ids (stdout w1) = processed_ids (stdout w)" "files w1 = files w"
    using map_files_effects [of env PATH_POS w0] unfolding m1 by (simp_all add: w0_def)
  have e2: "processed_ids (stdout w2) = processed_ids (stdout w)" "files w2 = files w"
    using map_files_effects [of env PATH_PHYSNET w1] unfolding m2 by (simp_all add: e1)
  have e3: "processed_ids (stdout w3) = processed_ids (stdout w)" "files w3 = files w"
    using map_files_effects [of env PATH_EFFPHYS w2] unfolding m3 by (simp_all add: e2)
  show ?thesis
  proof (cases "ids = []")
    case True
    then show ?thesis
      using None e3 unfolding ids
      by (simp add: main_def Let_def w0_def [symmetric] m1 m2 m3)
  next
    case False
    define w4 where "w4 = emit (FoundMatching (length ids)) w3"
    have sn: "snd ` set (enumerate 0 ids) = set ids"
      by (metis map_snd_enumerate list.set_map)
    have keys: "\<forall>vid_id \<in> snd ` set (enumerate 0 ids).
       vid_id \<in> fst ` set map_pos \<and> vid_id \<in> fst ` set map_phy \<and> vid_id \<in> fst ` set map_eff"
      using set_common_ids [of env map_pos map_phy map_eff]
      unfolding sn by (auto simp: ids)
    obtain r w5 where
      ml: "main_loop env map_pos map_phy map_eff (length ids) (enumerate 0 ids) 0 w4 = (r, w5)"
      by (cases "main_loop env map_pos map_phy map_eff (length ids) (enumerate 0 ids) 0 w4")
    from main_loop_processed [OF keys, of env "length ids" 0 w4] obtain c where
      r: "r = Inr c"
      and p5: "processed_ids (stdout w5) = processed_ids (stdout w4) @ ids"
      and f5: "\<And>p. (\<forall>vid_id \<in> set ids. p \<noteq> out_csv vid_id \<and> p \<noteq> out_png vid_id) \<Longrightarrow>
         files w5 p = files w4 p"
      unfolding ml sn by auto
    have m: "main env w = (None, emit (Summary c) w5)"
      using None False ml r unfolding ids
      by (simp add: main_def Let_def w0_def [symmetric] m1 m2 m3 w4_def [symmetric] ids [symmetric])
    show ?thesis
      unfolding m using None p5 f5 e3 by (simp add: w4_def)
  qed
qed

text \<open>
  C4. An id that is missing from at least one of the three indexes is not among the common
  ids and is never handed to \<open>process_fusion\<close> by \<open>main\<close>: no processing message
  for it is printed and neither of its output files is touched. Every id that \<open>main\<close>
  does process is a key of all three indexes. (The index \<open>map_files\<close> builds does not
  depend on the world it starts from.)
\<close>

theorem id_missing_from_an_index_is_never_processed:
  assumes "vid_id \<notin> fst ` set (fst (map_files env PATH_POS w)) \<or>
           vid_id \<notin> fst ` set (fst (map_files env PATH_PHYSNET w)) \<or>
           vid_id \<notin> fst ` set (fst (map_files env PATH_EFFPHYS w))"
    and "vid_id \<notin> set (processed_ids (stdout w))"
  shows "vid_id \<notin> set (common_ids env (fst (map_files env PATH_POS w))
             (fst (map_files env PATH_PHYSNET w)) (fst (map_files env PATH_EFFPHYS w))) \<and>
         vid_id \<notin> set (processed_ids (stdout (snd (main env w)))) \<and>
         files (snd (main env w)) (out_csv vid_id) = files w (out_csv vid_id) \<and>
         files (snd (main env w)) (out_png vid_id) = files w (out_png vid_id) \<and>
         set (processed_ids (stdout (snd (main env w)))) \<subseteq>
           set (processed_ids (stdout w)) \<union>
           (fst ` set (fst (map_files env PATH_POS w)) \<inter>
            fst ` set (fst (map_files env PATH_PHYSNET w)) \<inter>
            fst ` set (fst (map_files env PATH_EFFPHYS w)))"
proof -
  let ?ids = "common_ids env (fst (map_files env PATH_POS w))
             (fst (map_files env PATH_PHYSNET w)) (fst (map_files env PATH_EFFPHYS w))"
  have ids: "set ?ids = fst ` set (fst (map_files env PATH_POS w)) \<inter>
            fst ` set (fst (map_files env PATH_PHYSNET w)) \<inter>
            fst ` set (fst (map_files env PATH_EFFPHYS w))"
    by (rule set_common_ids)
  have notin: "vid_id \<notin> set ?ids"
    using assms(1) unfolding ids by blast
  have run: "processed_ids (stdout (snd (main env w))) =
       processed_ids (stdout w) @ (if makedirs env OUTPUT_FOLDER = None then ?ids else [])"
    and fl: "\<And>p. (\<forall>v \<in> set ?ids. p \<noteq> out_csv v \<and> p \<noteq> out_png v) \<Longrightarrow>
        files (snd (main env w)) p = files w p"
    using main_run [of env w] by blast+
  have p: "vid_id \<notin> set (processed_ids (stdout (snd (main env w))))"
    unfolding run using notin assms(2) by simp
  have c: "files (snd (main env w)) (out_csv vid_id) = files w (out_csv vid_id)"
    using notin by (intro fl) (auto simp: out_path_inj)
  have g: "files (snd (main env w)) (out_png vid_id) = files w (out_png vid_id)"
    using notin by (intro fl) (auto simp: out_path_inj)
  have s: "set (processed_ids (stdout (snd (main env w)))) \<subseteq>
           set (processed_ids (stdout w)) \<union> set ?ids"
    unfolding run by auto
  show ?thesis
    using notin p c g s unfolding ids by (intro conjI)
qed

lemma example_common_ids:
  "common_ids example_env (fst (map_files example_env PATH_POS w))
     (fst (map_files example_env PATH_PHYSNET w)) (fst (map_files example_env PATH_EFFPHYS w)) =
   [''foo'']"
  by (simp add: example_index common_ids_def)

theorem id_missing_from_an_index_is_never_processed_witness:
  "''bar'' \<in> fst ` set (fst (map_files example_env PATH_PHYSNET empty_world)) \<and>
   ''bar'' \<notin> fst ` set (fst (map_files example_env PATH_POS empty_world)) \<and>
   ''bar'' \<notin> set (processed_ids (stdout empty_world)) \<and>
   ''bar'' \<notin> set (processed_ids (stdout (snd (main example_env empty_world)))) \<and>
   files (snd (main example_env empty_world)) (out_csv ''bar'') = None \<and>
   files (snd (main example_env empty_world)) (out_png ''bar'') = None \<and>
   processed_ids (stdout (snd (main example_env empty_world))) = [''foo'']"
proof -
  have a: "''bar'' \<notin> fst ` set (fst (map_files example_env PATH_POS empty_world)) \<or>
           ''bar'' \<notin> fst ` set (fst (map_files example_env PATH_PHYSNET empty_world)) \<or>
           ''bar'' \<notin> fst ` set (fst (map_files example_env PATH_EFFPHYS empty_world))"
    by (simp add: example_index)
  have b: "''bar'' \<notin> set (processed_ids (stdout empty_world))"
    by (simp add: empty_world_def)
  have mk: "makedirs example_env OUTPUT_FOLDER = None"
    by (simp add: example_env_def)
  have all: "processed_ids (stdout (snd (main example_env empty_world))) = [''foo'']"
    using main_run [of example_env empty_world] unfolding example_common_ids
    by (simp add: mk empty_world_def)
  have e: "files empty_world p = None" for p
    by (simp add: empty_world_def)
  show ?thesis
    using id_missing_from_an_index_is_never_processed [OF a b] all b
    by (simp add: example_index e)
qed

lemma getitem_Inr_key: "getitem d k = Inr v \<Longrightarrow> k \<in> fst ` set d"
  by (cases "map_of d k") (auto simp: getitem_def dest!: map_of_SomeD intro: rev_image_eqI)

text \<open>
  C7. When the processing of an id raises an exception, \<open>process_fusion\<close> catches it,
  prints it and returns \<open>False\<close>; the loop prints the failure, leaves the count as it
  is and goes on with the remaining ids. The loop ends without an exception, and the ids
  it has processed are the failed id followed by the remaining ids, each once: there is no
  retry. The only exception \<open>main\<close> itself can end with is that of creating the
  output folder.
\<close>

theorem exception_is_caught_and_batch_continues:
  assumes "getitem map_pos vid_id = Inr p_pos" "getitem map_phy vid_id = Inr p_phy"
    "getitem map_eff vid_id = Inr p_eff"
    and "process_fusion_body env vid_id p_pos p_phy p_eff (emit (Fusing (i + 1) n vid_id) w) =
           (Inl e, w1)"
    and "\<forall>v \<in> snd ` set rest.
           v \<in> fst ` set map_pos \<and> v \<in> fst ` set map_phy \<and> v \<in> fst ` set map_eff"
  shows "process_fusion env vid_id p_pos p_phy p_eff (emit (Fusing (i + 1) n vid_id) w) =
           (False, emit (ErrorProcessing vid_id e) w1) \<and>
         main_loop env map_pos map_phy map_eff n ((i, vid_id) # rest) count w =
           main_loop env map_pos map_phy map_eff n rest count
             (emit Failed (emit (ErrorProcessing vid_id e) w1)) \<and>
         (\<exists>c. fst (main_loop env map_pos map_phy map_eff n ((i, vid_id) # rest) count w) = Inr c) \<and>
         processed_ids
             (stdout (snd (main_loop env map_pos map_phy map_eff n ((i, vid_id) # rest) count w))) =
           processed_ids (stdout w) @ vid_id # map snd rest \<and>
         fst (main env w0) = makedirs env OUTPUT_FOLDER"
proof -
  have pf: "process_fusion env vid_id p_pos p_phy p_eff (emit (Fusing (i + 1) n vid_id) w) =
      (False, emit (ErrorProcessing vid_id e) w1)"
    by (rule process_fusion_caught [OF assms(4)])
  have step: "main_loop env map_pos map_phy map_eff n ((i, vid_id) # rest) count w =
      main_loop env map_pos map_phy map_eff n rest count
        (emit Failed (emit (ErrorProcessing vid_id e) w1))"
    using main_loop_step [OF assms(1-3) pf, where rest = rest and count = count] by simp
  have keys: "\<forall>v \<in> snd ` set ((i, vid_id) # rest).
      v \<in> fst ` set map_pos \<and> v \<in> fst ` set map_phy \<and> v \<in> fst ` set map_eff"
    using assms(5) getitem_Inr_key [OF assms(1)] getitem_Inr_key [OF assms(2)]
      getitem_Inr_key [OF assms(3)]
    by simp
  from main_loop_processed [OF keys, of env n count w] have
    "\<exists>c. fst (main_loop env map_pos map_phy map_eff n ((i, vid_id) # rest) count w) = Inr c"
    "processed_ids
       (stdout (snd (main_loop env map_pos map_phy map_eff n ((i, vid_id) # rest) count w))) =
     processed_ids (stdout w) @ vid_id # map snd rest"
    by simp_all
  moreover have "fst (main env w0) = makedirs env OUTPUT_FOLDER"
    using main_run [of env w0] by (rule conjunct1)
  ultimately show ?thesis
    using pf step by (intro conjI)
qed

lemma example_run_any:
  "fst (process_fusion example_env ''foo'' foo_pos foo_phy foo_eff w) \<and>
   stdout (snd (process_fusion example_env ''foo'' foo_pos foo_phy foo_eff w)) = stdout w"
proof -
  have "process_fusion_body example_env ''foo'' foo_pos foo_phy foo_eff w =
      save_outputs example_env ''foo'' (take 30 (hd pos_table))
        (weighted_signal (take 30 (0 # replicate 29 10)) (take 30 (20 # 0 # replicate 29 20))
           (take 30 (30 # 30 # 0 # replicate 29 30))) w"
    using process_fusion_body_loaded [OF example_read example_signal0,
        where vid_id = "''foo''" and w = w]
    unfolding example_min_len by simp
  then show ?thesis
    by (simp add: process_fusion_def save_outputs_def DataFrame_def length_weighted_signal
        pos_table_def Let_def example_env_def)
qed

lemma pair_of_fst: "fst p = a \<Longrightarrow> p = (a, snd p)"
  by (cases p) simp

theorem exception_is_caught_and_batch_continues_witness:
  "process_fusion_body example_env ''bad'' [''nowhere''] [''nowhere''] [''nowhere'']
     (emit (Fusing 1 2 ''bad'') empty_world) =
     (Inl (Exception ''No such file or directory''), emit (Fusing 1 2 ''bad'') empty_world) \<and>
   fst (main_loop example_env [(''bad'', [''nowhere'']), (''foo'', foo_pos)]
          [(''bad'', [''nowhere'']), (''foo'', foo_phy)]
          [(''bad'', [''nowhere'']), (''foo'', foo_eff)] 2 [(0, ''bad''), (1, ''foo'')] 0
          empty_world) = Inr 1 \<and>
   stdout (snd (main_loop example_env [(''bad'', [''nowhere'']), (''foo'', foo_pos)]
          [(''bad'', [''nowhere'']), (''foo'', foo_phy)]
          [(''bad'', [''nowhere'']), (''foo'', foo_eff)] 2 [(0, ''bad''), (1, ''foo'')] 0
          empty_world)) =
     [Fusing 1 2 ''bad'', ErrorProcessing ''bad'' (Exception ''No such file or directory''),
      Failed, Fusing 2 2 ''foo'', Done]"
proof -
  let ?mp = "[(''bad'', [''nowhere'']), (''foo'', foo_pos)]"
  let ?mh = "[(''bad'', [''nowhere'']), (''foo'', foo_phy)]"
  let ?me = "[(''bad'', [''nowhere'']), (''foo'', foo_eff)]"
  let ?w1 = "emit (Fusing 1 2 ''bad'') empty_world"
  let ?e = "Exception ''No such file or directory''"
  let ?w2 = "emit Failed (emit (ErrorProcessing ''bad'' ?e) ?w1)"
  have g: "getitem ?mp ''bad'' = Inr [''nowhere'']" "getitem ?mh ''bad'' = Inr [''nowhere'']"
    "getitem ?me ''bad'' = Inr [''nowhere'']"
    by (simp_all add: getitem_def)
  have gf: "getitem ?mp ''foo'' = Inr foo_pos" "getitem ?mh ''foo'' = Inr foo_phy"
    "getitem ?me ''foo'' = Inr foo_eff"
    by (simp_all add: getitem_def)
  have body: "process_fusion_body example_env ''bad'' [''nowhere''] [''nowhere''] [''nowhere'']
      ?w1 = (Inl ?e, ?w1)"
    by (simp add: process_fusion_body_def compute_fusion_def example_env_def PATH_POS_def
        PATH_PHYSNET_def PATH_EFFPHYS_def)
  have body': "process_fusion_body example_env ''bad'' [''nowhere''] [''nowhere''] [''nowhere'']
      (emit (Fusing (0 + 1) 2 ''bad'') empty_world) = (Inl ?e, ?w1)"
    using body by (simp only: add_0)
  have keys: "\<forall>v \<in> snd ` set [(1::nat, ''foo'')].
      v \<in> fst ` set ?mp \<and> v \<in> fst ` set ?mh \<and> v \<in> fst ` set ?me"
    by simp
  have step1: "main_loop example_env ?mp ?mh ?me 2 [(0, ''bad''), (1, ''foo'')] 0 empty_world =
      main_loop example_env ?mp ?mh ?me 2 [(1, ''foo'')] 0 ?w2"
    by (rule exception_is_caught_and_batch_continues [OF g body' keys, where count = 0,
          THEN conjunct2, THEN conjunct1])
  let ?w3 = "snd (process_fusion example_env ''foo'' foo_pos foo_phy foo_eff
      (emit (Fusing 2 2 ''foo'') ?w2))"
  note ex = example_run_any [of "emit (Fusing 2 2 ''foo'') ?w2"]
  have "fst (process_fusion example_env ''foo'' foo_pos foo_phy foo_eff
      (emit (Fusing 2 2 ''foo'') ?w2)) = True"
    using ex by (simp only: simp_thms)
  then have run: "process_fusion example_env ''foo'' foo_pos foo_phy foo_eff
      (emit (Fusing 2 2 ''foo'') ?w2) = (True, ?w3)"
    by (rule pair_of_fst)
  have run': "process_fusion example_env ''foo'' foo_pos foo_phy foo_eff
      (emit (Fusing (1 + 1) 2 ''foo'') ?w2) = (True, ?w3)"
    using run by (simp only: one_add_one)
  have out3: "stdout ?w3 = [Fusing 1 2 ''bad'', ErrorProcessing ''bad'' ?e, Failed,
      Fusing 2 2 ''foo'']"
    using ex by (simp add: empty_world_def)
  have step2: "main_loop example_env ?mp ?mh ?me 2 [(1, ''foo'')] 0 ?w2 = (Inr 1, emit Done ?w3)"
    using main_loop_step [OF gf run', where rest = "[]" and count = 0] by simp
  have fin: "stdout (emit Done ?w3) = [Fusing 1 2 ''bad'', ErrorProcessing ''bad'' ?e, Failed,
      Fusing 2 2 ''foo'', Done]"
    unfolding stdout_emit out3 by simp
  show ?thesis
    unfolding step1 step2 fst_conv snd_conv fin using body by (intro conjI refl)
qed

end
